theory Spec2Isabelle
  imports Main "HOL-Library.Multiset" "HOL-Library.Sublist"
begin

section \<open>The broadcast registry and progress store of \<open>server/websocket_manager.py\<close>\<close>

text \<open>
  The class \<open>WebSocketManager\<close> keeps a Python list of live WebSocket handles
  (\<open>active_connections\<close>) and a dictionary of progress payloads keyed by generation id
  (\<open>progress_data\<close>). The same class, with the bodies of \<open>connect\<close>,
  \<open>disconnect\<close> and \<open>broadcast\<close> repeated, stands in \<open>server/fastapi_server.py\<close>
  (lines 36 to 60); the two copies differ in their console messages and in the form of the
  \<open>except\<close> clause only.

  Conventions of the embedding:
  \<^item> a handle is a value of an arbitrary type \<open>'ws\<close>; Python compares handles by identity,
    HOL by equality on \<open>'ws\<close>;
  \<^item> the transport is outside the repository. A call of \<open>websocket.accept()\<close> or
    \<open>websocket.send_text(message)\<close> either returns or raises an exception of class
    \<open>Exception\<close>. Which of the two happens is decided by a parameter \<open>net\<close> that sees
    the whole history of transport calls made so far, so that a transport may answer the same
    call differently at different times. The history is threaded through every coroutine
    that awaits the transport, and it is the record of every delivery attempt. The clause
    \<open>except Exception\<close> of \<open>websocket_manager.py\<close> and the bare \<open>except\<close> of
    \<open>fastapi_server.py\<close> catch every such exception alike, so one model serves both
    copies;
  \<^item> \<open>json.dumps\<close> and the clock of the event loop are outside the repository too: the
    encoder is a parameter that returns a text or raises, the clock reading is a parameter
    of an arbitrary type \<open>'f\<close>, carried and never computed with;
  \<^item> an exception that leaves a method is the first component of its result
    (\<open>None\<close>: the method returned), and the state it leaves behind is the second;
  \<^item> the \<open>print\<close> calls write to the console only and are left out; the interleaving of
    several coroutines is not part of the model, each method runs from its call to its return.
\<close>

subsection \<open>Python values and exceptions\<close>

datatype 'f pyval =
    PyNone
  | PyBool bool
  | PyInt int
  | PyFloat 'f
  | PyStr string
  | PyList "'f pyval list"
  | PyDict "(string \<times> 'f pyval) list"

type_synonym 'f pydict = "(string \<times> 'f pyval) list"

datatype 'e exn = ValueError | KeyError | TypeError | Raised 'e

subsection \<open>The transport\<close>

datatype 'ws call = Accept 'ws | SendText 'ws string

type_synonym ('ws, 'e) history = "('ws call \<times> 'e option) list"

type_synonym ('ws, 'e) network = "('ws, 'e) history \<Rightarrow> 'ws call \<Rightarrow> 'e option"

definition perform :: "('ws, 'e) network \<Rightarrow> 'ws call \<Rightarrow> ('ws, 'e) history
    \<Rightarrow> 'e option \<times> ('ws, 'e) history" where
  "perform net c h = (net h c, h @ [(c, net h c)])"

text \<open>Readers of a history: the channels whose send raised, the sends that returned, the
  number of sends attempted on one channel, and the part of a history added since an
  earlier one.\<close>

fun failed_channels :: "('ws, 'e) history \<Rightarrow> 'ws list" where
  "failed_channels [] = []"
| "failed_channels ((SendText c m, Some e) # t) = c # failed_channels t"
| "failed_channels (_ # t) = failed_channels t"

fun delivered :: "('ws, 'e) history \<Rightarrow> ('ws \<times> string) list" where
  "delivered [] = []"
| "delivered ((SendText c m, None) # t) = (c, m) # delivered t"
| "delivered (_ # t) = delivered t"

fun attempts_on :: "'ws \<Rightarrow> ('ws, 'e) history \<Rightarrow> nat" where
  "attempts_on c [] = 0"
| "attempts_on c ((SendText d m, r) # t) = (if d = c then Suc (attempts_on c t) else attempts_on c t)"
| "attempts_on c (_ # t) = attempts_on c t"

definition new_calls :: "('ws, 'e) history \<Rightarrow> ('ws, 'e) history \<Rightarrow> ('ws, 'e) history" where
  "new_calls h h' = drop (length h) h'"

subsection \<open>Python's list and dict primitives\<close>

text \<open>\<open>list.remove(x)\<close> deletes the first element equal to \<open>x\<close> and raises
  \<open>ValueError\<close> (here \<open>None\<close>) when there is none; \<open>del d[k]\<close> raises \<open>KeyError\<close>
  (here \<open>None\<close>) on a missing key; \<open>d.get(k, dflt)\<close> never raises.\<close>

fun list_remove :: "'a \<Rightarrow> 'a list \<Rightarrow> 'a list option" where
  "list_remove x [] = None"
| "list_remove x (y # ys) = (if y = x then Some ys else map_option ((#) y) (list_remove x ys))"

definition dict_del :: "'k \<Rightarrow> ('k \<rightharpoonup> 'v) \<Rightarrow> ('k \<rightharpoonup> 'v) option" where
  "dict_del k d = (if d k = None then None else Some (d(k := None)))"

definition dict_get :: "('k \<rightharpoonup> 'v) \<Rightarrow> 'k \<Rightarrow> 'v \<Rightarrow> 'v" where
  "dict_get d k dflt = (case d k of None \<Rightarrow> dflt | Some v \<Rightarrow> v)"

subsection \<open>The manager\<close>

record ('ws, 'f) manager =
  active_connections :: "'ws list"
  progress_data :: "int \<rightharpoonup> 'f pydict"

definition init :: "('ws, 'f) manager" where
  "init = \<lparr>active_connections = [], progress_data = Map.empty\<rparr>"

text \<open>\<open>connect\<close>: the handshake is awaited first; when it raises, the exception leaves
  \<open>connect\<close> and nothing is appended.\<close>

fun connect :: "('ws, 'e) network \<Rightarrow> 'ws \<Rightarrow> ('ws, 'f) manager \<times> ('ws, 'e) history
    \<Rightarrow> 'e exn option \<times> ('ws, 'f) manager \<times> ('ws, 'e) history" where
  "connect net websocket (s, h) =
     (case perform net (Accept websocket) h of
        (Some e, h') \<Rightarrow> (Some (Raised e), s, h')
      | (None, h') \<Rightarrow> (None, s\<lparr>active_connections := active_connections s @ [websocket]\<rparr>, h'))"

text \<open>\<open>disconnect\<close> awaits nothing, so it does not touch the history.\<close>

definition disconnect :: "'ws \<Rightarrow> ('ws, 'f) manager \<Rightarrow> 'e exn option \<times> ('ws, 'f) manager" where
  "disconnect websocket s =
     (if websocket \<in> set (active_connections s)
      then (case list_remove websocket (active_connections s) of
              None \<Rightarrow> (Some ValueError, s)
            | Some xs \<Rightarrow> (None, s\<lparr>active_connections := xs\<rparr>))
      else (None, s))"

fun send_personal_message :: "('ws, 'e) network \<Rightarrow> string \<Rightarrow> 'ws
    \<Rightarrow> ('ws, 'f) manager \<times> ('ws, 'e) history
    \<Rightarrow> 'e exn option \<times> ('ws, 'f) manager \<times> ('ws, 'e) history" where
  "send_personal_message net message websocket (s, h) =
     (case perform net (SendText websocket message) h of
        (None, h') \<Rightarrow> (None, s, h')
      | (Some e, h') \<Rightarrow> (case disconnect websocket s of (r, s') \<Rightarrow> (r, s', h')))"

text \<open>The first loop of \<open>broadcast\<close>: one \<open>send_text\<close> for each element of the list, a
  raised exception caught and the element appended to \<open>disconnected\<close>.\<close>

fun send_each :: "('ws, 'e) network \<Rightarrow> string \<Rightarrow> 'ws list \<Rightarrow> 'ws list \<Rightarrow> ('ws, 'e) history
    \<Rightarrow> 'ws list \<times> ('ws, 'e) history" where
  "send_each net message [] disconnected h = (disconnected, h)"
| "send_each net message (connection # rest) disconnected h =
     (case perform net (SendText connection message) h of
        (None, h') \<Rightarrow> send_each net message rest disconnected h'
      | (Some e, h') \<Rightarrow> send_each net message rest (disconnected @ [connection]) h')"

text \<open>The second loop: \<open>disconnect\<close> for each element of \<open>disconnected\<close>; an exception
  would leave the loop at once.\<close>

fun disconnect_each :: "'ws list \<Rightarrow> ('ws, 'f) manager \<Rightarrow> 'e exn option \<times> ('ws, 'f) manager" where
  "disconnect_each [] s = (None, s)"
| "disconnect_each (connection # rest) s =
     (case disconnect connection s of
        (None, s') \<Rightarrow> disconnect_each rest s'
      | (Some e, s') \<Rightarrow> (Some e, s'))"

fun broadcast :: "('ws, 'e) network \<Rightarrow> string \<Rightarrow> ('ws, 'f) manager \<times> ('ws, 'e) history
    \<Rightarrow> 'e exn option \<times> ('ws, 'f) manager \<times> ('ws, 'e) history" where
  "broadcast net message (s, h) =
     (case send_each net message (active_connections s) [] h of
        (disconnected, h') \<Rightarrow>
          (case disconnect_each disconnected s of (r, s') \<Rightarrow> (r, s', h')))"

text \<open>The two message-shape helpers. The dictionary literal is built first (for the setup
  message this reads the clock of the event loop, the parameter \<open>now\<close>), then
  \<open>json.dumps\<close> encodes it, and an exception of the encoder leaves the helper before
  anything is sent.\<close>

fun broadcast_progress :: "('f pyval \<Rightarrow> 'e exn + string) \<Rightarrow> ('ws, 'e) network \<Rightarrow> int \<Rightarrow> 'f pydict
    \<Rightarrow> ('ws, 'f) manager \<times> ('ws, 'e) history
    \<Rightarrow> 'e exn option \<times> ('ws, 'f) manager \<times> ('ws, 'e) history" where
  "broadcast_progress dumps net generation_id data (s, h) =
     (case dumps (PyDict [(''type'', PyStr ''progress''),
                          (''generationId'', PyInt generation_id),
                          (''data'', PyDict data)]) of
        Inl e \<Rightarrow> (Some e, s, h)
      | Inr encoded \<Rightarrow> broadcast net encoded (s, h))"

fun broadcast_setup_progress :: "('f pyval \<Rightarrow> 'e exn + string) \<Rightarrow> 'f \<Rightarrow> ('ws, 'e) network
    \<Rightarrow> int \<Rightarrow> int \<Rightarrow> int \<Rightarrow> string
    \<Rightarrow> ('ws, 'f) manager \<times> ('ws, 'e) history
    \<Rightarrow> 'e exn option \<times> ('ws, 'f) manager \<times> ('ws, 'e) history" where
  "broadcast_setup_progress dumps now net server_id step total_steps message (s, h) =
     (case dumps (PyDict [(''type'', PyStr ''setup_progress''),
                          (''serverId'', PyInt server_id),
                          (''step'', PyInt step),
                          (''totalSteps'', PyInt total_steps),
                          (''message'', PyStr message),
                          (''timestamp'', PyFloat now)]) of
        Inl e \<Rightarrow> (Some e, s, h)
      | Inr encoded \<Rightarrow> broadcast net encoded (s, h))"

subsection \<open>The progress store\<close>

definition store_progress :: "int \<Rightarrow> 'f pydict \<Rightarrow> ('ws, 'f) manager \<Rightarrow> ('ws, 'f) manager" where
  "store_progress generation_id data s =
     s\<lparr>progress_data := (progress_data s)(generation_id \<mapsto> data)\<rparr>"

definition get_progress :: "int \<Rightarrow> ('ws, 'f) manager \<Rightarrow> 'f pydict \<times> ('ws, 'f) manager" where
  "get_progress generation_id s = (dict_get (progress_data s) generation_id [], s)"

definition get_all_progress :: "('ws, 'f) manager \<Rightarrow> (int \<rightharpoonup> 'f pydict) \<times> ('ws, 'f) manager" where
  "get_all_progress s = (progress_data s, s)"

definition clear_progress :: "int \<Rightarrow> ('ws, 'f) manager \<Rightarrow> 'e exn option \<times> ('ws, 'f) manager" where
  "clear_progress generation_id s =
     (if progress_data s generation_id \<noteq> None
      then (case dict_del generation_id (progress_data s) of
              None \<Rightarrow> (Some KeyError, s)
            | Some d \<Rightarrow> (None, s\<lparr>progress_data := d\<rparr>))
      else (None, s))"

subsection \<open>Concrete transports and registries\<close>

text \<open>Handles are numbered. \<open>open_net\<close> lets every call return; on \<open>b_fails\<close> every
  send to handle 1 raises and every other call returns. \<open>abc\<close> is the registry with the
  three handles 0, 1, 2 and no progress record, \<open>const_dumps encoded\<close> is an
  encoder that returns the text \<open>encoded\<close> for every value, and \<open>no_dumps\<close> one that
  rejects every value with a \<open>TypeError\<close>. Clock readings are numbered by integers.\<close>

definition open_net :: "(nat, string) network" where
  "open_net h c = None"

definition b_fails :: "(nat, string) network" where
  "b_fails h c =
     (case c of
        Accept w \<Rightarrow> None
      | SendText w m \<Rightarrow> (if w = 1 then Some ''connection closed'' else None))"

definition abc :: "(nat, int) manager" where
  "abc = \<lparr>active_connections = [0, 1, 2], progress_data = Map.empty\<rparr>"

definition const_dumps :: "string \<Rightarrow> int pyval \<Rightarrow> string exn + string" where
  "const_dumps encoded v = Inr encoded"

definition no_dumps :: "int pyval \<Rightarrow> string exn + string" where
  "no_dumps v = Inl TypeError"

text \<open>\<open>twice\<close> is the state after \<open>connect\<close> has been called two times with handle 0 on
  a new manager, over a transport that accepts every handshake.\<close>

definition twice :: "(nat, int) manager \<times> (nat, string) history" where
  "twice = snd (connect open_net 0 (snd (connect open_net 0 (init, []))))"

section \<open>Facts about the primitives\<close>

lemma list_remove_eq:
  "list_remove x xs = (if x \<in> set xs then Some (remove1 x xs) else None)"
  by (induction xs) auto

lemma disconnect_eq:
  "disconnect c s = (None, s\<lparr>active_connections := remove1 c (active_connections s)\<rparr>)"
  by (simp add: disconnect_def list_remove_eq remove1_idem)

lemma disconnect_each_eq:
  "disconnect_each cs s = (None, s\<lparr>active_connections := fold remove1 cs (active_connections s)\<rparr>)"
  by (induction cs arbitrary: s) (simp_all add: disconnect_eq)

lemma remove1_length_count:
  assumes "x \<in> set xs"
  shows "length (remove1 x xs) + 1 = length xs"
    and "count_list (remove1 x xs) x + 1 = count_list xs x"
  using assms by (induction xs) auto

lemma remove1_count_other: "y \<noteq> x \<Longrightarrow> count_list (remove1 x xs) y = count_list xs y"
  by (induction xs) auto

subsection \<open>Removing a list of elements one by one\<close>

lemma subseq_mset: "subseq xs ys \<Longrightarrow> mset xs \<subseteq># mset ys"
  by (induction rule: list_emb.induct) (auto intro: subset_mset.order_trans)

lemma subseq_remove1_self: "subseq (remove1 x xs) xs"
  by (induction xs) auto

lemma subseq_fold_remove1: "subseq (fold remove1 ds xs) xs"
proof (induction ds arbitrary: xs)
  case Nil
  show ?case by simp
next
  case (Cons d ds)
  have "subseq (fold remove1 ds (remove1 d xs)) (remove1 d xs)" by (rule Cons.IH)
  also have "subseq (remove1 d xs) xs" by (rule subseq_remove1_self)
  finally show ?case by simp
qed

lemma mset_fold_remove1: "mset (fold remove1 ds xs) = mset xs - mset ds"
  by (induction ds arbitrary: xs) simp_all

lemma filter_neq_absent: "d \<notin> set xs \<Longrightarrow> filter (\<lambda>c. c \<noteq> d) xs = xs"
  by (induction xs) auto

lemma remove1_distinct_filter: "distinct xs \<Longrightarrow> remove1 d xs = filter (\<lambda>c. c \<noteq> d) xs"
  by (induction xs) (auto simp add: filter_neq_absent)

lemma fold_remove1_distinct:
  "distinct xs \<Longrightarrow> fold remove1 ds xs = filter (\<lambda>c. c \<notin> set ds) xs"
proof (induction ds arbitrary: xs)
  case Nil
  show ?case by simp
next
  case (Cons d ds)
  have "distinct (remove1 d xs)" using Cons.prems by simp
  from Cons.IH [OF this] show ?case
    using Cons.prems by (auto simp add: remove1_distinct_filter intro: filter_cong)
qed

lemma subseq_set: "subseq xs ys \<Longrightarrow> set xs \<subseteq> set ys"
  using set_mset_mono [OF subseq_mset, of xs ys] by simp

subsection \<open>The two loops of \<open>broadcast\<close>\<close>

lemma send_each_trace:
  "\<exists>t. send_each net m cs d h = (d @ failed_channels t, h @ t)
      \<and> map fst t = map (\<lambda>c. SendText c m) cs"
proof (induction cs arbitrary: d h)
  case Nil
  have "send_each net m [] d h = (d @ failed_channels [], h @ [])
      \<and> map fst ([] :: ('a, 'b) history) = map (\<lambda>c. SendText c m) []" by simp
  then show ?case by blast
next
  case (Cons c cs)
  let ?k = "SendText c m"
  let ?h1 = "h @ [(?k, net h ?k)]"
  show ?case
  proof (cases "net h ?k")
    case None
    from Cons.IH [of d ?h1] obtain t where
      t: "send_each net m cs d ?h1 = (d @ failed_channels t, ?h1 @ t)"
         "map fst t = map (\<lambda>c. SendText c m) cs" by blast
    have "send_each net m (c # cs) d h = (d @ failed_channels ((?k, None) # t), h @ (?k, None) # t)
       \<and> map fst ((?k, None) # t) = map (\<lambda>c. SendText c m) (c # cs)"
      using None t by (simp add: perform_def)
    then show ?thesis by blast
  next
    case (Some e)
    from Cons.IH [of "d @ [c]" ?h1] obtain t where
      t: "send_each net m cs (d @ [c]) ?h1 = ((d @ [c]) @ failed_channels t, ?h1 @ t)"
         "map fst t = map (\<lambda>c. SendText c m) cs" by blast
    have "send_each net m (c # cs) d h = (d @ failed_channels ((?k, Some e) # t), h @ (?k, Some e) # t)
       \<and> map fst ((?k, Some e) # t) = map (\<lambda>c. SendText c m) (c # cs)"
      using Some t by (simp add: perform_def)
    then show ?thesis by blast
  qed
qed

text \<open>A history of sends of one message, one for each element of a list: what its readers
  return.\<close>

lemma sends_cases:
  assumes "map fst (p # t) = map (\<lambda>c. SendText c m) cs"
  obtains c cs' r where "cs = c # cs'" "p = (SendText c m, r)"
    "map fst t = map (\<lambda>c. SendText c m) cs'"
  using assms by (cases cs; cases p) auto

lemma failed_subseq:
  "map fst t = map (\<lambda>c. SendText c m) cs \<Longrightarrow> subseq (failed_channels t) cs"
proof (induction t arbitrary: cs)
  case Nil
  then show ?case by simp
next
  case (Cons p t)
  from Cons.prems obtain c cs' r where cs: "cs = c # cs'" "p = (SendText c m, r)"
    "map fst t = map (\<lambda>c. SendText c m) cs'" by (rule sends_cases)
  from Cons.IH [OF cs(3)] show ?case using cs by (cases r) auto
qed

lemma delivered_failed_mset:
  "map fst t = map (\<lambda>c. SendText c m) cs \<Longrightarrow>
     mset (map fst (delivered t)) + mset (failed_channels t) = mset cs"
proof (induction t arbitrary: cs)
  case Nil
  then show ?case by simp
next
  case (Cons p t)
  from Cons.prems obtain c cs' r where cs: "cs = c # cs'" "p = (SendText c m, r)"
    "map fst t = map (\<lambda>c. SendText c m) cs'" by (rule sends_cases)
  from Cons.IH [OF cs(3)] show ?case using cs by (cases r) auto
qed

lemma delivered_message:
  "map fst t = map (\<lambda>c. SendText c m) cs \<Longrightarrow>
     map snd (delivered t) = replicate (length (delivered t)) m"
proof (induction t arbitrary: cs)
  case Nil
  then show ?case by simp
next
  case (Cons p t)
  from Cons.prems obtain c cs' r where cs: "cs = c # cs'" "p = (SendText c m, r)"
    "map fst t = map (\<lambda>c. SendText c m) cs'" by (rule sends_cases)
  from Cons.IH [OF cs(3)] show ?case using cs by (cases r) auto
qed

lemma attempts_on_count:
  "map fst t = map (\<lambda>c. SendText c m) cs \<Longrightarrow> attempts_on c t = count_list cs c"
proof (induction t arbitrary: cs)
  case Nil
  then show ?case by simp
next
  case (Cons p t)
  from Cons.prems obtain d cs' r where cs: "cs = d # cs'" "p = (SendText d m, r)"
    "map fst t = map (\<lambda>c. SendText c m) cs'" by (rule sends_cases)
  from Cons.IH [OF cs(3)] show ?case using cs by auto
qed

lemma delivered_distinct:
  "map fst t = map (\<lambda>c. SendText c m) cs \<Longrightarrow> distinct cs \<Longrightarrow>
     delivered t = map (\<lambda>c. (c, m)) (filter (\<lambda>c. c \<notin> set (failed_channels t)) cs)"
proof (induction t arbitrary: cs)
  case Nil
  then show ?case by simp
next
  case (Cons p t)
  from Cons.prems(1) obtain c cs' r where cs: "cs = c # cs'" "p = (SendText c m, r)"
    "map fst t = map (\<lambda>c. SendText c m) cs'" by (rule sends_cases)
  have d: "distinct cs'" "c \<notin> set cs'" using Cons.prems(2) cs(1) by simp_all
  have "set (failed_channels t) \<subseteq> set cs'"
    using failed_subseq [OF cs(3)] by (rule subseq_set) 
  then have nf: "c \<notin> set (failed_channels t)" using d(2) by blast
  have ih: "delivered t = map (\<lambda>c. (c, m)) (filter (\<lambda>c. c \<notin> set (failed_channels t)) cs')"
    using Cons.IH [OF cs(3) d(1)] .
  show ?case
  proof (cases r)
    case None
    then show ?thesis using ih cs nf by simp
  next
    case (Some e)
    have "filter (\<lambda>x. x \<noteq> c \<and> x \<notin> set (failed_channels t)) cs'
        = filter (\<lambda>x. x \<notin> set (failed_channels t)) cs'"
      using d(2) by (auto intro: filter_cong)
    then show ?thesis using Some ih cs by simp
  qed
qed

lemma broadcast_trace:
  "\<exists>t. broadcast net m (s, h) =
          (None, s\<lparr>active_connections := fold remove1 (failed_channels t) (active_connections s)\<rparr>, h @ t)
      \<and> map fst t = map (\<lambda>c. SendText c m) (active_connections s)"
proof -
  from send_each_trace [of net m "active_connections s" "[]" h] obtain t where
    t: "send_each net m (active_connections s) [] h = ([] @ failed_channels t, h @ t)"
       "map fst t = map (\<lambda>c. SendText c m) (active_connections s)" by blast
  have "broadcast net m (s, h) =
          (None, s\<lparr>active_connections := fold remove1 (failed_channels t) (active_connections s)\<rparr>, h @ t)"
    using t(1) by (simp add: disconnect_each_eq)
  with t(2) show ?thesis by blast
qed

lemma broadcast_result:
  assumes "broadcast net m (s, h) = (r, s', h')"
  shows "r = None"
    and "h' = h @ new_calls h h'"
    and "map fst (new_calls h h') = map (\<lambda>c. SendText c m) (active_connections s)"
    and "s' = s\<lparr>active_connections :=
            fold remove1 (failed_channels (new_calls h h')) (active_connections s)\<rparr>"
proof -
  from broadcast_trace [of net m s h] obtain t where
    t: "broadcast net m (s, h) =
          (None, s\<lparr>active_connections := fold remove1 (failed_channels t) (active_connections s)\<rparr>, h @ t)"
       "map fst t = map (\<lambda>c. SendText c m) (active_connections s)" by blast
  have "(r, s', h') =
          (None, s\<lparr>active_connections := fold remove1 (failed_channels t) (active_connections s)\<rparr>, h @ t)"
    using assms t(1) by (simp only:)
  then have eq: "r = None" "h' = h @ t"
    "s' = s\<lparr>active_connections := fold remove1 (failed_channels t) (active_connections s)\<rparr>"
    by simp_all
  have n: "new_calls h h' = t" using eq(2) by (simp add: new_calls_def)
  show "r = None" by (rule eq(1))
  show "h' = h @ new_calls h h'" using eq(2) n by simp
  show "map fst (new_calls h h') = map (\<lambda>c. SendText c m) (active_connections s)"
    using t(2) n by simp
  show "s' = s\<lparr>active_connections :=
            fold remove1 (failed_channels (new_calls h h')) (active_connections s)\<rparr>"
    using eq(3) n by simp
qed

lemma count_list_distinct: "distinct xs \<Longrightarrow> count_list xs c \<le> 1"
  by (induction xs) auto

lemma twice_eq:
  "twice = (\<lparr>active_connections = [0, 0], progress_data = Map.empty\<rparr>,
            [(Accept 0, None), (Accept 0, None)])"
  by (simp add: twice_def init_def open_net_def perform_def)

lemma clear_progress_eq:
  "clear_progress i s = (None, s\<lparr>progress_data := (progress_data s)(i := None)\<rparr>)"
proof (cases "progress_data s i")
  case None
  then have "(progress_data s)(i := None) = progress_data s" by (simp add: fun_upd_idem)
  then show ?thesis using None by (simp add: clear_progress_def)
next
  case (Some d)
  then show ?thesis by (simp add: clear_progress_def dict_del_def)
qed

lemma broadcast_sends:
  "fst (broadcast net m (s, h)) = None
   \<and> map fst (new_calls h (snd (snd (broadcast net m (s, h)))))
       = map (\<lambda>c. SendText c m) (active_connections s)"
proof -
  obtain r s' h' where run: "broadcast net m (s, h) = (r, s', h')"
    by (cases "broadcast net m (s, h)")
  note res = broadcast_result [OF run]
  show ?thesis using res(1) res(3) by (simp only: run fst_conv snd_conv simp_thms)
qed

section \<open>The claims\<close>

subsection \<open>Unregistering\<close>

text \<open>Claim C8. \<open>disconnect(c)\<close> never raises and never touches the progress store. When
  \<open>c\<close> is registered it removes one entry of \<open>c\<close>, the first one: the list is one
  shorter, \<open>c\<close> has one entry less, and in a registry without duplicates \<open>c\<close> is no
  longer a member. When \<open>c\<close> is not registered the state is unchanged. The entries of
  every other handle are kept.\<close>

theorem disconnect_removes_entry:
  "disconnect c s = (r, s') \<Longrightarrow>
     r = None
   \<and> progress_data s' = progress_data s
   \<and> active_connections s' = remove1 c (active_connections s)
   \<and> (if c \<in> set (active_connections s)
      then length (active_connections s') + 1 = length (active_connections s)
         \<and> count_list (active_connections s') c + 1 = count_list (active_connections s) c
         \<and> (distinct (active_connections s) \<longrightarrow> c \<notin> set (active_connections s'))
      else s' = s)
   \<and> (\<forall>d. d \<noteq> c \<longrightarrow> count_list (active_connections s') d = count_list (active_connections s) d)"
proof -
  assume a: "disconnect c s = (r, s')"
  let ?xs = "active_connections s"
  have r: "r = None" and s': "s' = s\<lparr>active_connections := remove1 c ?xs\<rparr>"
    using a by (simp_all add: disconnect_eq)
  have present: "length (remove1 c ?xs) + 1 = length ?xs
      \<and> count_list (remove1 c ?xs) c + 1 = count_list ?xs c
      \<and> (distinct ?xs \<longrightarrow> c \<notin> set (remove1 c ?xs))" if "c \<in> set ?xs"
    using that remove1_length_count [of c ?xs] by simp
  have absent: "s' = s" if "c \<notin> set ?xs"
    using that s' by (simp add: remove1_idem)
  have others: "\<forall>d. d \<noteq> c \<longrightarrow> count_list (remove1 c ?xs) d = count_list ?xs d"
    by (simp add: remove1_count_other)
  show ?thesis
    using r s' present absent others by simp
qed

theorem disconnect_removes_entry_witness:
  "disconnect (1::nat) abc = (None :: string exn option, abc\<lparr>active_connections := [0, 2]\<rparr>)
   \<and> disconnect (7::nat) abc = (None :: string exn option, abc)
   \<and> length (active_connections (abc\<lparr>active_connections := [0, 2]\<rparr>)) + 1 = length (active_connections abc)"
  using disconnect_removes_entry [of 1 abc "None :: string exn option" "abc\<lparr>active_connections := [0, 2]\<rparr>"]
    disconnect_removes_entry [of 7 abc "None :: string exn option" abc]
  by (simp add: disconnect_def abc_def)

subsection \<open>The progress store\<close>

text \<open>Claim C4. After \<open>store_progress(id, a)\<close> and then \<open>store_progress(id, b)\<close>,
  \<open>get_progress(id)\<close> returns \<open>b\<close>; nothing of the first write is left (the state is
  the one a single write of \<open>b\<close> gives), the store holds exactly one record for the id,
  and no other key has been added.\<close>

theorem store_progress_last_write_wins:
  "fst (get_progress i (store_progress i b (store_progress i a s))) = b
   \<and> store_progress i b (store_progress i a s) = store_progress i b s
   \<and> {d. progress_data (store_progress i b (store_progress i a s)) i = Some d} = {b}
   \<and> dom (progress_data (store_progress i b (store_progress i a s))) = insert i (dom (progress_data s))"
  by (auto simp add: get_progress_def store_progress_def dict_get_def)

text \<open>Claim C9. For an id with no stored record, \<open>get_progress(id)\<close> returns the empty
  dictionary and leaves the state as it is; for an id with a record it returns the record.
  \<open>get_progress\<close> has no raising branch: it gives a dictionary for every integer id.\<close>

theorem get_progress_missing:
  "(progress_data s i = None \<longrightarrow> get_progress i s = ([], s))
   \<and> (\<forall>d. progress_data s i = Some d \<longrightarrow> get_progress i s = (d, s))"
  by (simp add: get_progress_def dict_get_def)

theorem get_progress_missing_witness:
  "progress_data (store_progress 1 [(''status'', PyStr ''done'')] abc) 2 = None
   \<and> get_progress 2 (store_progress 1 [(''status'', PyStr ''done'')] abc)
       = ([], store_progress 1 [(''status'', PyStr ''done'')] abc)
   \<and> fst (get_progress 1 (store_progress 1 [(''status'', PyStr ''done'')] abc))
       = [(''status'', PyStr ''done'')]"
  using get_progress_missing [of "store_progress 1 [(''status'', PyStr ''done'')] abc" 2]
  by (simp add: store_progress_def get_progress_def dict_get_def abc_def)

subsection \<open>Broadcasting\<close>

text \<open>Claim C1. A \<open>broadcast(m)\<close> on a registry of \<open>N\<close> entries, \<open>K\<close> of whose
  sends raise, attempts one send of \<open>m\<close> for each entry in registration order; exactly
  \<open>N - K\<close> sends succeed, each carrying \<open>m\<close>; the registry afterwards has \<open>N - K\<close>
  entries: it is the old registry less the \<open>K\<close> entries of the failing channels, its
  entries are those of the channels that received the message, and they stand in their old
  relative order. In a registry without duplicates the remaining entries are exactly the
  channels none of whose sends failed, and they are the channels that received \<open>m\<close>.\<close>

theorem broadcast_counts:
  assumes run: "broadcast net m (s, h) = (r, s', h')"
    and N: "length (active_connections s) = N"
    and K: "length (failed_channels (new_calls h h')) = K"
  shows "map fst (new_calls h h') = map (\<lambda>c. SendText c m) (active_connections s)
    \<and> K \<le> N
    \<and> length (delivered (new_calls h h')) = N - K
    \<and> map snd (delivered (new_calls h h')) = replicate (N - K) m
    \<and> length (active_connections s') = N - K
    \<and> mset (failed_channels (new_calls h h')) \<subseteq># mset (active_connections s)
    \<and> mset (active_connections s') =
        mset (active_connections s) - mset (failed_channels (new_calls h h'))
    \<and> mset (map fst (delivered (new_calls h h'))) = mset (active_connections s')
    \<and> subseq (active_connections s') (active_connections s)
    \<and> (distinct (active_connections s) \<longrightarrow>
          active_connections s' =
            filter (\<lambda>c. c \<notin> set (failed_channels (new_calls h h'))) (active_connections s)
        \<and> delivered (new_calls h h') = map (\<lambda>c. (c, m)) (active_connections s'))"
proof -
  let ?t = "new_calls h h'"
  let ?cs = "active_connections s"
  let ?f = "failed_channels ?t"
  note res = broadcast_result [OF run]
  have sends: "map fst ?t = map (\<lambda>c. SendText c m) ?cs" by (rule res(3))
  have reg: "active_connections s' = fold remove1 ?f ?cs" using res(4) by simp
  have split: "mset (map fst (delivered ?t)) + mset ?f = mset ?cs"
    by (rule delivered_failed_mset [OF sends])
  have sub: "mset ?f \<subseteq># mset ?cs"
    by (rule subseq_mset [OF failed_subseq [OF sends]])
  have "size (mset (map fst (delivered ?t)) + mset ?f) = size (mset ?cs)"
    using split by simp
  then have len: "length (delivered ?t) + K = N" using N K by simp
  then have KN: "K \<le> N" and dl: "length (delivered ?t) = N - K" by simp_all
  have msg: "map snd (delivered ?t) = replicate (N - K) m"
    using delivered_message [OF sends] dl by simp
  have ms: "mset (active_connections s') = mset ?cs - mset ?f"
    using reg by (simp add: mset_fold_remove1)
  have dm: "mset (map fst (delivered ?t)) = mset (active_connections s')"
  proof -
    have "mset (map fst (delivered ?t)) = mset ?cs - mset ?f"
      using split by (metis add_diff_cancel_right')
    then show ?thesis using ms by simp
  qed
  have "size (mset (active_connections s')) = size (mset (map fst (delivered ?t)))"
    using dm by simp
  then have rl: "length (active_connections s') = N - K" using dl by simp
  have ord: "subseq (active_connections s') ?cs"
    using reg by (simp add: subseq_fold_remove1)
  have dis: "active_connections s' = filter (\<lambda>c. c \<notin> set ?f) ?cs
      \<and> delivered ?t = map (\<lambda>c. (c, m)) (active_connections s')" if "distinct ?cs"
    using that reg delivered_distinct [OF sends that] by (simp add: fold_remove1_distinct)
  show ?thesis
    using sends KN dl msg rl sub ms dm ord dis by blast
qed

text \<open>The scenario of the specification: channels 0, 1, 2 are live and the send to 1
  raises; 0 and 2 receive the message and the registry is left with 0 and 2.\<close>

theorem broadcast_counts_witness:
  "broadcast b_fails ''x'' (abc, []) =
     (None, abc\<lparr>active_connections := [0, 2]\<rparr>,
      [(SendText 0 ''x'', None), (SendText 1 ''x'', Some ''connection closed''),
       (SendText 2 ''x'', None)])
   \<and> delivered (new_calls [] [(SendText 0 ''x'', None),
        (SendText (1::nat) ''x'', Some ''connection closed''), (SendText 2 ''x'', None)])
      = [(0, ''x''), (2, ''x'')]
   \<and> length (active_connections (abc\<lparr>active_connections := [0, 2]\<rparr>)) = 3 - 1"
  using broadcast_counts [of b_fails "''x''" abc "[]" None "abc\<lparr>active_connections := [0, 2]\<rparr>"
    "[(SendText 0 ''x'', None), (SendText 1 ''x'', Some ''connection closed''),
       (SendText 2 ''x'', None)]" 3 1]
  by (simp add: b_fails_def abc_def perform_def disconnect_def new_calls_def)

text \<open>Claim C5, as the code has it. During a \<open>broadcast\<close> a failing send never ends the
  loop: whatever the outcomes, one send is attempted for each registry entry, in
  registration order, and nothing more; no exception leaves \<open>broadcast\<close>. A channel
  receives as many attempts as it has entries, whether its sends fail or not, so a failed
  send is not tried again, and in a registry without duplicates every channel receives at
  most one attempt.\<close>

theorem broadcast_contains_failures:
  assumes run: "broadcast net m (s, h) = (r, s', h')"
  shows "r = None
    \<and> h' = h @ new_calls h h'
    \<and> map fst (new_calls h h') = map (\<lambda>c. SendText c m) (active_connections s)
    \<and> length (new_calls h h') = length (active_connections s)
    \<and> attempts_on c (new_calls h h') = count_list (active_connections s) c
    \<and> (distinct (active_connections s) \<longrightarrow> attempts_on c (new_calls h h') \<le> 1)"
proof -
  note res = broadcast_result [OF run]
  have len: "length (new_calls h h') = length (active_connections s)"
    by (rule map_eq_imp_length_eq [OF res(3)])
  have att: "attempts_on c (new_calls h h') = count_list (active_connections s) c"
    by (rule attempts_on_count [OF res(3)])
  show ?thesis
    using res(1) res(2) res(3) len att count_list_distinct [of "active_connections s" c]
    by simp
qed

theorem broadcast_contains_failures_witness:
  "broadcast b_fails ''x'' (abc, []) =
     (None, abc\<lparr>active_connections := [0, 2]\<rparr>,
      [(SendText 0 ''x'', None), (SendText 1 ''x'', Some ''connection closed''),
       (SendText 2 ''x'', None)])
   \<and> distinct (active_connections abc)
   \<and> attempts_on 2 (new_calls [] [(SendText 0 ''x'', None),
        (SendText (1::nat) ''x'', Some ''connection closed''), (SendText 2 ''x'', None)]) = 1"
  using broadcast_contains_failures [of b_fails "''x''" abc "[]" None
    "abc\<lparr>active_connections := [0, 2]\<rparr>"
    "[(SendText 0 ''x'', None), (SendText 1 ''x'', Some ''connection closed''),
       (SendText 2 ''x'', None)]" 2]
  by (simp add: b_fails_def abc_def perform_def disconnect_def new_calls_def)

text \<open>The claim as the specification states it fails where a handle has two entries: after
  two \<open>connect\<close> calls with handle 0, one \<open>broadcast\<close> attempts two sends on it.\<close>

theorem broadcast_attempts_duplicate_twice:
  "fst (broadcast open_net ''x'' twice) = None
   \<and> attempts_on 0 (new_calls (snd twice) (snd (snd (broadcast open_net ''x'' twice)))) = 2
   \<and> \<not> attempts_on 0 (new_calls (snd twice) (snd (snd (broadcast open_net ''x'' twice)))) \<le> 1"
  by (simp add: twice_eq open_net_def perform_def new_calls_def)

subsection \<open>Registering\<close>

text \<open>Claim C2, as the code has it. \<open>connect(c)\<close> awaits the handshake and, when it
  returns, appends one entry for \<open>c\<close> without looking at the registry: the number of
  entries of \<open>c\<close> grows by one, and the registry is free of duplicates afterwards exactly
  when it was so before and did not hold \<open>c\<close>. When the handshake raises, the exception
  leaves \<open>connect\<close> and the state is unchanged. The progress store is never touched.\<close>

theorem connect_appends:
  assumes run: "connect net c (s, h) = (r, s', h')"
  shows "h' = h @ [(Accept c, net h (Accept c))]
    \<and> progress_data s' = progress_data s
    \<and> (if net h (Accept c) = None
       then r = None
          \<and> active_connections s' = active_connections s @ [c]
          \<and> count_list (active_connections s') c = count_list (active_connections s) c + 1
          \<and> (distinct (active_connections s') \<longleftrightarrow>
               distinct (active_connections s) \<and> c \<notin> set (active_connections s))
       else r = map_option Raised (net h (Accept c)) \<and> s' = s)"
  using run by (cases "net h (Accept c)") (auto simp add: perform_def)

theorem connect_appends_witness:
  "connect open_net 0 (init :: (nat, int) manager, []) =
     (None, init\<lparr>active_connections := [0]\<rparr>, [(Accept 0, None)])
   \<and> count_list (active_connections (init\<lparr>active_connections := [0::nat]\<rparr> :: (nat, int) manager)) 0 = 1
   \<and> distinct (active_connections (init\<lparr>active_connections := [0::nat]\<rparr> :: (nat, int) manager))"
  using connect_appends [of open_net 0 "init :: (nat, int) manager" "[]" None
    "init\<lparr>active_connections := [0]\<rparr>" "[(Accept 0, None)]"]
  by (simp add: open_net_def init_def perform_def)

text \<open>Registering is not idempotent: two \<open>connect\<close> calls with the same handle, both
  handshakes accepted, leave two entries for it.\<close>

theorem connect_twice_two_entries:
  "fst (connect open_net 0 (init :: (nat, int) manager, [])) = None
   \<and> fst (connect open_net 0 (snd (connect open_net 0 (init :: (nat, int) manager, [])))) = None
   \<and> active_connections (fst twice) = [0, 0]
   \<and> count_list (active_connections (fst twice)) 0 = 2
   \<and> \<not> distinct (active_connections (fst twice))"
  by (simp add: twice_def init_def open_net_def perform_def)

subsection \<open>Direct delivery\<close>

text \<open>Claim C3, as the code has it. \<open>send_personal_message(m, c)\<close> attempts one send. When
  the send raises, the first entry of \<open>c\<close> is removed from the registry and the method
  returns as it does after a send that succeeded: the exception is caught and nothing is
  reported to the caller. When the send returns, the state is unchanged.\<close>

theorem send_personal_message_prunes:
  assumes run: "send_personal_message net m c (s, h) = (r, s', h')"
  shows "r = None
    \<and> h' = h @ [(SendText c m, net h (SendText c m))]
    \<and> progress_data s' = progress_data s
    \<and> (if net h (SendText c m) = None then s' = s
       else active_connections s' = remove1 c (active_connections s))"
  using run by (cases "net h (SendText c m)") (auto simp add: perform_def disconnect_eq)

theorem send_personal_message_prunes_witness:
  "send_personal_message b_fails ''x'' 1 (abc, []) =
     (None, abc\<lparr>active_connections := [0, 2]\<rparr>,
      [(SendText 1 ''x'', Some ''connection closed'')])
   \<and> active_connections (abc\<lparr>active_connections := [0, 2]\<rparr>) = remove1 1 (active_connections abc)"
  using send_personal_message_prunes [of b_fails "''x''" 1 abc "[]" None
    "abc\<lparr>active_connections := [0, 2]\<rparr>" "[(SendText 1 ''x'', Some ''connection closed'')]"]
  by (simp add: b_fails_def abc_def perform_def disconnect_def)

text \<open>The failure is not surfaced: the send to handle 1 raises, and the caller gets the
  same outcome as for the send to handle 0, which succeeds.\<close>

theorem send_personal_message_swallows:
  "b_fails [] (SendText 1 ''x'') = Some ''connection closed''
   \<and> send_personal_message b_fails ''x'' 1 (abc, []) =
       (None, abc\<lparr>active_connections := [0, 2]\<rparr>,
        [(SendText 1 ''x'', Some ''connection closed'')])
   \<and> fst (send_personal_message b_fails ''x'' 0 (abc, [])) = None"
  by (simp add: b_fails_def abc_def perform_def disconnect_def)

subsection \<open>Frame conditions\<close>

text \<open>Claim C10. \<open>broadcast\<close> adds no channel and leaves the progress store as it was: the
  registry afterwards is a subsequence of the registry before. \<open>store_progress\<close>,
  \<open>get_progress\<close> and \<open>clear_progress\<close> leave the registry as it was; \<open>get_progress\<close>
  changes nothing at all, and \<open>clear_progress\<close> never raises.\<close>

theorem frame_effects:
  assumes run: "broadcast net m (s, h) = (r, s', h')"
    and clr: "clear_progress i s = (r2, s2)"
  shows "subseq (active_connections s') (active_connections s)
    \<and> set (active_connections s') \<subseteq> set (active_connections s)
    \<and> progress_data s' = progress_data s
    \<and> active_connections (store_progress i d s) = active_connections s
    \<and> snd (get_progress i s) = s
    \<and> r2 = None
    \<and> active_connections s2 = active_connections s"
proof -
  note res = broadcast_result [OF run]
  have reg: "active_connections s' =
      fold remove1 (failed_channels (new_calls h h')) (active_connections s)"
    using res(4) by simp
  have sub: "subseq (active_connections s') (active_connections s)"
    using reg by (simp add: subseq_fold_remove1)
  have mem: "set (active_connections s') \<subseteq> set (active_connections s)"
    by (rule subseq_set [OF sub])
  have pd: "progress_data s' = progress_data s" using res(4) by simp
  have "(r2, s2) = (None, s\<lparr>progress_data := (progress_data s)(i := None)\<rparr>)"
    by (rule trans [OF clr [symmetric] clear_progress_eq])
  then have c: "r2 = None" "active_connections s2 = active_connections s"
    by auto
  show ?thesis
    using sub mem pd c by (simp add: store_progress_def get_progress_def)
qed

theorem frame_effects_witness:
  "broadcast b_fails ''x'' (abc, []) =
     (None, abc\<lparr>active_connections := [0, 2]\<rparr>,
      [(SendText 0 ''x'', None), (SendText 1 ''x'', Some ''connection closed''),
       (SendText 2 ''x'', None)])
   \<and> clear_progress 5 abc = (None :: string exn option, abc)
   \<and> subseq (active_connections (abc\<lparr>active_connections := [0, 2]\<rparr>)) (active_connections abc)"
  using frame_effects [of b_fails "''x''" abc "[]" None "abc\<lparr>active_connections := [0, 2]\<rparr>"
    "[(SendText 0 ''x'', None), (SendText 1 ''x'', Some ''connection closed''),
       (SendText 2 ''x'', None)]" 5 "None :: string exn option" abc]
  by (simp add: b_fails_def abc_def perform_def disconnect_def clear_progress_def)

subsection \<open>The message-shape helpers\<close>

text \<open>Claim C7. Whenever \<open>json.dumps\<close> encodes the dictionary
  \<open>{"type": "progress", "generationId": generation_id, "data": data}\<close>,
  \<open>broadcast_progress(generation_id, data)\<close> is the call of \<open>broadcast\<close> with that
  encoding: it returns, and it sends exactly the encoded text, once to each registry entry
  in order. Likewise \<open>broadcast_setup_progress(server_id, step, total_steps, message)\<close>
  is the call of \<open>broadcast\<close> with the encoding of the dictionary whose keys are, in
  this order, \<open>type\<close> (with the value \<open>setup_progress\<close>), \<open>serverId\<close>, \<open>step\<close>,
  \<open>totalSteps\<close>, \<open>message\<close> and \<open>timestamp\<close> (the clock of the event loop). When
  the encoder raises, its exception leaves the helper and nothing is sent.\<close>

theorem progress_helpers_broadcast_encoding:
  "(dumps (PyDict [(''type'', PyStr ''progress''),
                   (''generationId'', PyInt generation_id),
                   (''data'', PyDict data)]) = Inr encoded \<longrightarrow>
      broadcast_progress dumps net generation_id data (s, h) = broadcast net encoded (s, h)
    \<and> fst (broadcast_progress dumps net generation_id data (s, h)) = None
    \<and> map fst (new_calls h (snd (snd (broadcast_progress dumps net generation_id data (s, h)))))
        = map (\<lambda>c. SendText c encoded) (active_connections s))
   \<and> (dumps (PyDict [(''type'', PyStr ''setup_progress''),
                     (''serverId'', PyInt server_id),
                     (''step'', PyInt step),
                     (''totalSteps'', PyInt total_steps),
                     (''message'', PyStr message),
                     (''timestamp'', PyFloat now)]) = Inr encoded' \<longrightarrow>
      broadcast_setup_progress dumps now net server_id step total_steps message (s, h)
        = broadcast net encoded' (s, h)
    \<and> fst (broadcast_setup_progress dumps now net server_id step total_steps message (s, h)) = None
    \<and> map fst (new_calls h (snd (snd
          (broadcast_setup_progress dumps now net server_id step total_steps message (s, h)))))
        = map (\<lambda>c. SendText c encoded') (active_connections s))
   \<and> (dumps (PyDict [(''type'', PyStr ''progress''),
                     (''generationId'', PyInt generation_id),
                     (''data'', PyDict data)]) = Inl e \<longrightarrow>
      broadcast_progress dumps net generation_id data (s, h) = (Some e, s, h))
   \<and> (dumps (PyDict [(''type'', PyStr ''setup_progress''),
                     (''serverId'', PyInt server_id),
                     (''step'', PyInt step),
                     (''totalSteps'', PyInt total_steps),
                     (''message'', PyStr message),
                     (''timestamp'', PyFloat now)]) = Inl e' \<longrightarrow>
      broadcast_setup_progress dumps now net server_id step total_steps message (s, h)
        = (Some e', s, h))"
proof -
  note b = broadcast_sends [of net encoded s h]
  note b' = broadcast_sends [of net encoded' s h]
  show ?thesis
    using b b' by (simp del: broadcast.simps)
qed

theorem progress_helpers_broadcast_encoding_witness:
  "const_dumps ''{\"type\": \"progress\", \"generationId\": 7, \"data\": {}}''
      (PyDict [(''type'', PyStr ''progress''), (''generationId'', PyInt 7), (''data'', PyDict [])])
     = Inr ''{\"type\": \"progress\", \"generationId\": 7, \"data\": {}}''
   \<and> broadcast_progress
        (const_dumps ''{\"type\": \"progress\", \"generationId\": 7, \"data\": {}}'')
        b_fails 7 [] (abc, [])
     = (None, abc\<lparr>active_connections := [0, 2]\<rparr>,
        [(SendText 0 ''{\"type\": \"progress\", \"generationId\": 7, \"data\": {}}'', None),
         (SendText 1 ''{\"type\": \"progress\", \"generationId\": 7, \"data\": {}}'',
            Some ''connection closed''),
         (SendText 2 ''{\"type\": \"progress\", \"generationId\": 7, \"data\": {}}'', None)])
   \<and> broadcast_setup_progress
        (const_dumps ''{\"type\": \"progress\", \"generationId\": 7, \"data\": {}}'')
        12 open_net 1 2 5 ''installing'' (abc, [])
     = broadcast open_net ''{\"type\": \"progress\", \"generationId\": 7, \"data\": {}}'' (abc, [])
   \<and> broadcast_progress no_dumps b_fails 7 [] (abc, []) = (Some TypeError, abc, [])
   \<and> broadcast_setup_progress no_dumps 12 b_fails 1 2 5 ''installing'' (abc, [])
     = (Some TypeError, abc, [])"
  using progress_helpers_broadcast_encoding
    [of "const_dumps ''{\"type\": \"progress\", \"generationId\": 7, \"data\": {}}''" 7 "[]"
        "''{\"type\": \"progress\", \"generationId\": 7, \"data\": {}}''" b_fails abc "[]"
        1 2 5 "''installing''" 12 "''{\"type\": \"progress\", \"generationId\": 7, \"data\": {}}''"]
    progress_helpers_broadcast_encoding
    [of "const_dumps ''{\"type\": \"progress\", \"generationId\": 7, \"data\": {}}''" 7 "[]"
        "''{\"type\": \"progress\", \"generationId\": 7, \"data\": {}}''" open_net abc "[]"
        1 2 5 "''installing''" 12 "''{\"type\": \"progress\", \"generationId\": 7, \"data\": {}}''"]
    progress_helpers_broadcast_encoding
    [of no_dumps 7 "[]" _ b_fails abc "[]" 1 2 5 "''installing''" 12 _ TypeError TypeError]
  by (simp add: const_dumps_def no_dumps_def b_fails_def open_net_def abc_def perform_def
      disconnect_def)

end
